theory Spec2Isabelle
  imports Main "HOL-Library.Word"
begin

section \<open>Decimal rendering (fmt's \<open>%d\<close> and \<open>%04d\<close> on unsigned integers)\<close>

text \<open>
  The logging interceptor prints the correlation id with \<open>fmt.Fprintf(w, "REQ %04d", reqID)\<close>.
  \<open>showNat\<close> is the decimal text of an unsigned integer, \<open>fmt04d\<close> pads it with zeros on
  the left to a width of four.
\<close>

definition digitChar :: "nat \<Rightarrow> char" where
  "digitChar d = ''0123456789'' ! d"

function showNat :: "nat \<Rightarrow> string" where
  "showNat n = (if n < 10 then [digitChar n] else showNat (n div 10) @ [digitChar (n mod 10)])"
  by pat_completeness auto
termination
  by (relation "measure id") auto

declare showNat.simps [simp del]

definition fmt04d :: "nat \<Rightarrow> string" where
  "fmt04d n = replicate (4 - length (showNat n)) (CHR ''0'') @ showNat n"

section \<open>The logging interceptor (interceptors\_logger.go)\<close>

subsection \<open>Payloads, sinks and options\<close>

text \<open>
  A request or response payload reaches the interceptor as an \<open>interface{}\<close> holding a
  pointer to a message struct; \<open>rprintReqOrRep\<close> walks its fields by reflection. A payload
  is modelled as the list of the struct's fields in declaration order, each a field name
  and a value of type \<open>'v\<close>; \<open>None\<close> is the nil interface. The payloads covered are
  non-nil pointers to structs whose fields are all exported, as the messages of the
  protocol are. The text that \<open>fmt.Sprintf("%v", ...)\<close> gives a value belongs to the Go
  library and is a parameter \<open>sv\<close>; so is \<open>et\<close>, the text \<open>fmt.Fprint\<close> gives an error
  (its \<open>Error()\<close>).
\<close>

type_synonym 'v payload = "(string \<times> 'v) list"

text \<open>
  An \<open>io.Writer\<close> is an address into a store of sinks; a sink holds the chunks written to
  it, one per \<open>Write\<close> call. \<open>None\<close> is the nil writer. Two options may name the same
  sink (both \<open>os.Stdout\<close>, say).
\<close>

type_synonym sinks = "nat \<Rightarrow> string list"

record loggingOpts =
  reqw :: "nat option"
  repw :: "nat option"

text \<open>
  A Go call either returns or panics. \<open>fmt.Fprintln\<close> calls \<open>w.Write\<close>; on a nil
  \<open>io.Writer\<close> that is a nil-pointer dereference.
\<close>

datatype 'a outcome = Panic | Returned 'a

definition newline :: string where
  "newline = [CHR 0x0A]"

definition Fprintln :: "nat option \<Rightarrow> string \<Rightarrow> sinks \<Rightarrow> sinks option" where
  "Fprintln wr s \<sigma> =
     (case wr of
        None \<Rightarrow> None
      | Some a \<Rightarrow> Some (\<sigma>(a := \<sigma> a @ [s @ newline])))"

text \<open>
  \<open>WithRequestLogging\<close> and \<open>WithResponseLogging\<close>: a nil writer argument means
  \<open>os.Stdout\<close>, whose address is the parameter \<open>stdout\<close>.
  \<open>newLoggingInterceptor\<close> applies the options in order to the zero value.
\<close>

definition WithRequestLogging :: "nat \<Rightarrow> nat option \<Rightarrow> loggingOpts \<Rightarrow> loggingOpts" where
  "WithRequestLogging stdout w o' =
     o'\<lparr>reqw := Some (case w of None \<Rightarrow> stdout | Some a \<Rightarrow> a)\<rparr>"

definition WithResponseLogging :: "nat \<Rightarrow> nat option \<Rightarrow> loggingOpts \<Rightarrow> loggingOpts" where
  "WithResponseLogging stdout w o' =
     o'\<lparr>repw := Some (case w of None \<Rightarrow> stdout | Some a \<Rightarrow> a)\<rparr>"

definition newLoggingInterceptor :: "(loggingOpts \<Rightarrow> loggingOpts) list \<Rightarrow> loggingOpts" where
  "newLoggingInterceptor opts = fold (\<lambda>withOpts i. withOpts i) opts \<lparr>reqw = None, repw = None\<rparr>"

subsection \<open>Rendering a payload\<close>

text \<open>
  \<open>emptyValRX\<close> is \<^verbatim>\<open>^((?:)|(?:\[\])|(?:<nil>)|(?:map\[\]))$\<close>: it matches exactly the
  four texts below.
\<close>

definition emptyValRX :: "string \<Rightarrow> bool" where
  "emptyValRX s = (s = '''' \<or> s = ''[]'' \<or> s = ''<nil>'' \<or> s = ''map[]'')"

text \<open>
  The loop of \<open>rprintReqOrRep\<close>, with its three variables: the buffer \<open>w\<close>,
  \<open>printedColon\<close> and \<open>printComma\<close>.
\<close>

fun rprintLoop ::
  "('v \<Rightarrow> string) \<Rightarrow> 'v payload \<Rightarrow> string \<times> bool \<times> bool \<Rightarrow> string \<times> bool \<times> bool" where
  "rprintLoop sv [] st = st"
| "rprintLoop sv ((name, v) # fs) (w, printedColon, printComma) =
     (if name = ''UserCredentials'' then rprintLoop sv fs (w, printedColon, printComma)
      else if emptyValRX (sv v) then rprintLoop sv fs (w, printedColon, printComma)
      else
        let w1 = (if printComma then w @ '', '' else w);
            w2 = (if \<not> printedColon then w1 @ '': '' else w1)
        in rprintLoop sv fs (w2 @ name @ ''='' @ sv v, True, True))"

definition rprintReqOrRep :: "('v \<Rightarrow> string) \<Rightarrow> string \<Rightarrow> 'v payload \<Rightarrow> string" where
  "rprintReqOrRep sv w obj = fst (rprintLoop sv obj (w, False, False))"

subsection \<open>The interceptor\<close>

text \<open>
  \<open>handle\<close>. \<open>reqID\<close> is what \<open>GetRequestID(ctx)\<close> returns (\<open>None\<close> when the context
  carries no id). \<open>next\<close> is the wrapped call: it acts on a state \<open>'s\<close> of its own and
  returns a response payload and an error, either of which may be nil. The result is
  the outcome of the call together with the state of the wrapped handler and the sinks.
\<close>

definition handle ::
  "('v \<Rightarrow> string) \<Rightarrow> ('e \<Rightarrow> string) \<Rightarrow> loggingOpts \<Rightarrow> nat option \<Rightarrow> string \<Rightarrow>
   'v payload option \<Rightarrow> ('s \<Rightarrow> ('v payload option \<times> 'e option) \<times> 's) \<Rightarrow>
   's \<times> sinks \<Rightarrow> ('v payload option \<times> 'e option) outcome \<times> ('s \<times> sinks)" where
  "handle sv et opts reqID method req next st =
     (case st of (s, \<sigma>) \<Rightarrow>
      (case req of
         None \<Rightarrow> (case next s of (r, s') \<Rightarrow> (Returned r, (s', \<sigma>)))
       | Some rq \<Rightarrow>
           let w0 = method @ '': '';
               w1 = (case reqID of Some n \<Rightarrow> w0 @ ''REQ '' @ fmt04d n | None \<Rightarrow> w0);
               w2 = rprintReqOrRep sv w1 rq
           in
           (case Fprintln (reqw opts) w2 \<sigma> of
              None \<Rightarrow> (Panic, (s, \<sigma>))
            | Some \<sigma>1 \<Rightarrow>
                (case next s of ((rep, failed), s1) \<Rightarrow>
                   (if repw opts = None then (Returned (rep, failed), (s1, \<sigma>1))
                    else
                      let v0 = method @ '': '';
                          v1 = (case reqID of Some n \<Rightarrow> v0 @ ''REP '' @ fmt04d n | None \<Rightarrow> v0);
                          v2 = (case failed of Some e \<Rightarrow> v1 @ '': '' @ et e | None \<Rightarrow> v1);
                          v3 = (case rep of Some rp \<Rightarrow> rprintReqOrRep sv v2 rp | None \<Rightarrow> v2)
                      in
                      (case Fprintln (repw opts) v3 \<sigma>1 of
                         None \<Rightarrow> (Panic, (s1, \<sigma>1))
                       | Some \<sigma>2 \<Rightarrow> (Returned (rep, failed), (s1, \<sigma>2))))))))"

text \<open>
  \<open>handleServer\<close> wraps \<open>handler(ctx, req)\<close>; \<open>handleClient\<close> wraps the invoker, which
  fills the caller's response object in place, and returns the error alone.
\<close>

definition handleServer ::
  "('v \<Rightarrow> string) \<Rightarrow> ('e \<Rightarrow> string) \<Rightarrow> loggingOpts \<Rightarrow> nat option \<Rightarrow> 'v payload option \<Rightarrow> string \<Rightarrow>
   ('v payload option \<Rightarrow> 's \<Rightarrow> ('v payload option \<times> 'e option) \<times> 's) \<Rightarrow>
   's \<times> sinks \<Rightarrow> ('v payload option \<times> 'e option) outcome \<times> ('s \<times> sinks)" where
  "handleServer sv et opts reqID req fullMethod handler st =
     handle sv et opts reqID fullMethod req (handler req) st"

definition handleClient ::
  "('v \<Rightarrow> string) \<Rightarrow> ('e \<Rightarrow> string) \<Rightarrow> loggingOpts \<Rightarrow> nat option \<Rightarrow> string \<Rightarrow>
   'v payload option \<Rightarrow> 'v payload option \<Rightarrow>
   ('v payload option \<Rightarrow> 'v payload option \<Rightarrow> 's \<Rightarrow> ('v payload option \<times> 'e option) \<times> 's) \<Rightarrow>
   's \<times> sinks \<Rightarrow> 'e option outcome \<times> ('s \<times> sinks)" where
  "handleClient sv et opts reqID method req rep invoker st =
     (case handle sv et opts reqID method req (invoker req rep) st of
        (Panic, st') \<Rightarrow> (Panic, st')
      | (Returned (_, err), st') \<Rightarrow> (Returned err, st'))"

subsection \<open>What the rendering loop computes\<close>

text \<open>
  The description of a rendered payload in the words of the specification: the fields
  that are shown, the text of one field, and the texts joined by a separator.
\<close>

definition shownFields :: "('v \<Rightarrow> string) \<Rightarrow> 'v payload \<Rightarrow> 'v payload" where
  "shownFields sv obj =
     filter (\<lambda>(name, v). name \<noteq> ''UserCredentials'' \<and>
                           sv v \<notin> {'''', ''[]'', ''<nil>'', ''map[]''}) obj"

definition fieldText :: "('v \<Rightarrow> string) \<Rightarrow> string \<times> 'v \<Rightarrow> string" where
  "fieldText sv f = fst f @ ''='' @ sv (snd f)"

fun joinWith :: "string \<Rightarrow> string list \<Rightarrow> string" where
  "joinWith sep [] = []"
| "joinWith sep [x] = x"
| "joinWith sep (x # y # ys) = x @ sep @ joinWith sep (y # ys)"

definition fieldSection :: "('v \<Rightarrow> string) \<Rightarrow> 'v payload \<Rightarrow> string" where
  "fieldSection sv obj =
     (if shownFields sv obj = [] then ''''
      else '': '' @ joinWith '', '' (map (fieldText sv) (shownFields sv obj)))"

text \<open>Two payloads of one struct type that differ at most in the field \<open>UserCredentials\<close>.\<close>

definition differOnlyInCreds :: "'v payload \<Rightarrow> 'v payload \<Rightarrow> bool" where
  "differOnlyInCreds p q =
     list_all2 (\<lambda>f g. fst f = fst g \<and> (fst f \<noteq> ''UserCredentials'' \<longrightarrow> snd f = snd g)) p q"

text \<open>The head of a log line: the method name and, when the context carries one, the id.\<close>

definition lineHead :: "string \<Rightarrow> string \<Rightarrow> nat option \<Rightarrow> string" where
  "lineHead method tag reqID =
     method @ '': '' @ (case reqID of Some n \<Rightarrow> tag @ '' '' @ fmt04d n | None \<Rightarrow> '''')"

text \<open>
  The request line and the response line of a call: the head, then (on the response
  line) the failure's message after a colon when the call failed, then the field section
  of the payload when there is one.
\<close>

definition requestLine :: "('v \<Rightarrow> string) \<Rightarrow> string \<Rightarrow> nat option \<Rightarrow> 'v payload \<Rightarrow> string" where
  "requestLine sv method reqID rq = lineHead method ''REQ'' reqID @ fieldSection sv rq"

definition responseLine ::
  "('v \<Rightarrow> string) \<Rightarrow> ('e \<Rightarrow> string) \<Rightarrow> string \<Rightarrow> nat option \<Rightarrow>
   'v payload option \<Rightarrow> 'e option \<Rightarrow> string" where
  "responseLine sv et method reqID rep failed =
     lineHead method ''REP'' reqID
       @ (case failed of Some e \<Rightarrow> '': '' @ et e | None \<Rightarrow> '''')
       @ (case rep of Some rp \<Rightarrow> fieldSection sv rp | None \<Rightarrow> '''')"

section \<open>The version model and the spec validator\<close>

text \<open>
  The version model (\<open>ParseVersion\<close>, \<open>SprintfVersion\<close>, the supported-version test) and the
  spec validator interceptor are not among the source files; only their tests are
  (identity\_test.go, controller\_test.go). They are modelled from the specification,
  sections 3, 4.1, 4.4 and 7, with the message texts the tests expect.
\<close>

text \<open>
  Modelled from the spec: the Version of section 3 (the message type is missing from the
  sources): three unsigned integers, compared field by field.
\<close>

record version =
  major :: nat
  minor :: nat
  patch :: nat

text \<open>
  Modelled from the spec: the text of a version, \<open>MAJOR.MINOR.PATCH\<close> (the formatting function
  is missing from the sources). The tests name an unsupported version by this text.
\<close>

definition SprintfVersion :: "version \<Rightarrow> string" where
  "SprintfVersion v = showNat (major v) @ ''.'' @ showNat (minor v) @ ''.'' @ showNat (patch v)"

text \<open>
  Modelled from the spec: \<open>isSupported(requested, supported[])\<close> of section 4.1, missing from
  the sources. The supported versions are an ordered sequence, searched for an entry equal
  to the requested version in all three fields; a nil requested version (\<open>None\<close>) is never
  supported.
\<close>

fun isSupported :: "version option \<Rightarrow> version list \<Rightarrow> bool" where
  "isSupported None supported = False"
| "isSupported (Some v) [] = False"
| "isSupported (Some v) (s # supported) =
     (if major v = major s \<and> minor v = minor s \<and> patch v = patch s then True
      else isSupported (Some v) supported)"

text \<open>
  Modelled from the spec: the machine-readable codes that section 6 names (the error
  values are missing from the sources).
\<close>

datatype code = InvalidArgument | Aborted | NotFound

text \<open>
  Modelled from the spec: the error kinds of section 7 (missing from the sources). An
  unsupported version carries its code and message, a missing required field the name of
  the field, a handler's error its code and message.
\<close>

datatype csiError =
    UnsupportedVersion code string
  | MissingRequiredField string
  | OperationPending
  | UnderlyingHandlerError code string

text \<open>
  Modelled from the spec: the text that names a requested version in an error, \<open>nil\<close> for
  a nil version (section 4.4, step 1; the validator is missing from the sources).
\<close>

definition versionText :: "version option \<Rightarrow> string" where
  "versionText requested = (case requested of None \<Rightarrow> ''nil'' | Some v \<Rightarrow> SprintfVersion v)"

text \<open>
  Modelled from the spec: step 1 of section 4.4 on a requested version (the validator is
  missing from the sources). An unsupported version fails with an invalid-argument error
  whose message is \<open>invalid request version: \<close> followed by the version text, or by \<open>nil\<close>
  (identity\_test.go, lines 72 to 78; controller\_test.go, lines 316 to 326).
\<close>

definition checkVersion :: "version option \<Rightarrow> version list \<Rightarrow> csiError option" where
  "checkVersion requested supported =
     (if isSupported requested supported then None
      else Some (UnsupportedVersion InvalidArgument
                   (''invalid request version: '' @ versionText requested)))"

text \<open>
  Modelled from the spec: the supported versions of the reference plugin
  (\<open>mockSupportedVersions\<close>, missing from the sources), as section 8 lists them.
\<close>

definition mockSupportedVersions :: "version list" where
  "mockSupportedVersions =
     [\<lparr>major = 0, minor = 1, patch = 0\<rparr>, \<lparr>major = 0, minor = 2, patch = 0\<rparr>,
      \<lparr>major = 1, minor = 0, patch = 0\<rparr>, \<lparr>major = 1, minor = 1, patch = 0\<rparr>]"

text \<open>
  The requests, with the fields the validator reads, as the tests and the command-line
  client build them. A credentials map is an association list; the nil map is \<open>[]\<close>.
\<close>

type_synonym creds = "(string \<times> string) list"

datatype request =
    GetSupportedVersionsRequest
  | GetPluginInfoRequest "version option"
  | CreateVolumeRequest "version option" string creds
  | DeleteVolumeRequest "version option" string creds
  | ControllerPublishVolumeRequest "version option" string
  | ControllerUnpublishVolumeRequest "version option" string
  | ListVolumesRequest "version option" "32 word" string
  | NodeUnpublishVolumeRequest "version option" string creds

text \<open>
  The version field of a request (\<open>None\<close> when the request type has none), the resource
  name of a creation call, the resource id of a call that takes one, the credentials map.
\<close>

fun reqVersion :: "request \<Rightarrow> version option option" where
  "reqVersion GetSupportedVersionsRequest = None"
| "reqVersion (GetPluginInfoRequest v) = Some v"
| "reqVersion (CreateVolumeRequest v _ _) = Some v"
| "reqVersion (DeleteVolumeRequest v _ _) = Some v"
| "reqVersion (ControllerPublishVolumeRequest v _) = Some v"
| "reqVersion (ControllerUnpublishVolumeRequest v _) = Some v"
| "reqVersion (ListVolumesRequest v _ _) = Some v"
| "reqVersion (NodeUnpublishVolumeRequest v _ _) = Some v"

fun reqName :: "request \<Rightarrow> string option" where
  "reqName (CreateVolumeRequest _ name _) = Some name"
| "reqName _ = None"

fun reqVolumeId :: "request \<Rightarrow> string option" where
  "reqVolumeId (DeleteVolumeRequest _ volumeId _) = Some volumeId"
| "reqVolumeId (ControllerPublishVolumeRequest _ volumeId) = Some volumeId"
| "reqVolumeId (ControllerUnpublishVolumeRequest _ volumeId) = Some volumeId"
| "reqVolumeId (NodeUnpublishVolumeRequest _ volumeId _) = Some volumeId"
| "reqVolumeId _ = None"

fun reqCreds :: "request \<Rightarrow> creds option" where
  "reqCreds (CreateVolumeRequest _ _ userCredentials) = Some userCredentials"
| "reqCreds (DeleteVolumeRequest _ _ userCredentials) = Some userCredentials"
| "reqCreds (NodeUnpublishVolumeRequest _ _ userCredentials) = Some userCredentials"
| "reqCreds _ = None"

text \<open>
  Modelled from the spec: the validator's configuration (section 6), missing from the
  sources: the supported versions and one switch per required-field check.
\<close>

record validatorOpts =
  supportedVersions :: "version list"
  requiresVolumeName :: bool
  requiresVolumeId :: bool
  requiresCreds :: bool

text \<open>
  Modelled from the spec: step 1 of the validator's state machine (section 4.4; the
  validator is missing from the sources): the version check, for a request that carries
  a version field.
\<close>

definition validateRequestVersion :: "validatorOpts \<Rightarrow> request \<Rightarrow> csiError option" where
  "validateRequestVersion opts req =
     (case reqVersion req of
        None \<Rightarrow> None
      | Some requested \<Rightarrow> checkVersion requested (supportedVersions opts))"

text \<open>
  Modelled from the spec: the configured required fields that a request is missing, in
  the order section 4.4 names the checks of step 2 (the validator is missing from the
  sources). A field is missing when it is empty.
\<close>

definition missingFields :: "validatorOpts \<Rightarrow> request \<Rightarrow> string list" where
  "missingFields opts req =
     (if requiresVolumeName opts \<and> reqName req = Some [] then [''volume name''] else []) @
     (if requiresVolumeId opts \<and> reqVolumeId req = Some [] then [''volume id''] else []) @
     (if requiresCreds opts \<and> reqCreds req = Some [] then [''user credentials''] else [])"

text \<open>
  Modelled from the spec: the validator's state machine of section 4.4, missing from the
  sources. Step 1 checks the version. Step 2 fails naming the first required field that
  is missing. Step 3 invokes the wrapped handler. Step 4, the normalisation of the
  handler's result, is the parameter \<open>remap\<close>. A failure of step 1 or 2 returns without
  invoking the handler.
\<close>

definition specValidator ::
  "validatorOpts \<Rightarrow> (request \<Rightarrow> csiError + 'r \<Rightarrow> csiError + 'r) \<Rightarrow> request \<Rightarrow>
   (request \<Rightarrow> 's \<Rightarrow> (csiError + 'r) \<times> 's) \<Rightarrow> 's \<Rightarrow> (csiError + 'r) \<times> 's" where
  "specValidator opts remap req handler s =
     (case validateRequestVersion opts req of
        Some e \<Rightarrow> (Inl e, s)
      | None \<Rightarrow>
          (case missingFields opts req of
             field # _ \<Rightarrow> (Inl (MissingRequiredField field), s)
           | [] \<Rightarrow> (case handler req s of (r, s') \<Rightarrow> (remap req r, s'))))"

text \<open>
  A handler that counts its invocations: the state is the count so far and the state of
  the handler it wraps.
\<close>

definition counting ::
  "(request \<Rightarrow> 's \<Rightarrow> 'a \<times> 's) \<Rightarrow> request \<Rightarrow> nat \<times> 's \<Rightarrow> 'a \<times> (nat \<times> 's)" where
  "counting handler req st =
     (case st of (n, s) \<Rightarrow> (case handler req s of (a, s') \<Rightarrow> (a, (Suc n, s'))))"

section \<open>The pagination engine\<close>

text \<open>
  The engine (\<open>PageAllVolumes\<close>) is not among the source files; only its callers are
  (\<open>listVolumes\<close> of controller\_test.go, the list command of the client, which gives
  \<open>MaxEntries\<close> the type \<open>uint32\<close>). It is modelled from section 4.6 of the specification.
\<close>

text \<open>
  Modelled from the spec: the pagination engine of section 4.6, missing from the sources.
  The list call takes the starting token and the maximal number of entries and returns an
  error or the items of a page and the next token. The engine issues the call, starting
  with the caller's cursor, emits the items of each page in arrival order, forwards a
  non-empty next token as the next starting token, and stops at an empty next token or at
  the first error. Its two outputs are the values emitted and the error, if any. A server
  that never returns an empty token keeps the engine running: the result is then \<open>None\<close>.
\<close>

partial_function (option) pageAll ::
  "(string \<Rightarrow> 32 word \<Rightarrow> 'e + ('a list \<times> string)) \<Rightarrow> string \<Rightarrow> 32 word \<Rightarrow> 'a list \<Rightarrow>
   ('a list \<times> 'e option) option" where
  "pageAll call startingToken maxEntries emitted =
     (case call startingToken maxEntries of
        Inl e \<Rightarrow> Some (emitted, Some e)
      | Inr (items, nextToken) \<Rightarrow>
          (if nextToken = [] then Some (emitted @ items, None)
           else pageAll call nextToken maxEntries (emitted @ items)))"

declare pageAll.simps [code]

text \<open>
  Reading a token that is a decimal offset (\<open>strconv.ParseUint\<close> in base 10): the value of
  a digit, the digits from left to right, and the whole token, which must not be empty.
\<close>

definition digitVal :: "char \<Rightarrow> nat option" where
  "digitVal c = map_of (zip ''0123456789'' [0, 1, 2, 3, 4, 5, 6, 7, 8, 9]) c"

fun parseDigits :: "string \<Rightarrow> nat \<Rightarrow> nat option" where
  "parseDigits [] acc = Some acc"
| "parseDigits (c # cs) acc =
     (case digitVal c of None \<Rightarrow> None | Some d \<Rightarrow> parseDigits cs (acc * 10 + d))"

definition ParseUint :: "string \<Rightarrow> nat option" where
  "ParseUint s = (if s = [] then None else parseDigits s 0)"

text \<open>
  Modelled from the spec: a list handler over a fixed backing dataset \<open>xs\<close>, split across
  pages of the requested size (sections 6 and 8; the reference plugin's handler is missing
  from the sources). A token is the decimal offset of the next item, the empty token is
  offset 0. A request for 0 entries, or for more than remain, returns all that remain. The
  next token is empty when the page reaches the end of the dataset. A token that is not
  an offset into the dataset fails with the error \<open>bad\<close>.
\<close>

definition pagedServer ::
  "'e \<Rightarrow> 'a list \<Rightarrow> string \<Rightarrow> 32 word \<Rightarrow> 'e + ('a list \<times> string)" where
  "pagedServer bad xs startingToken maxEntries =
     (case (if startingToken = [] then Some 0 else ParseUint startingToken) of
        None \<Rightarrow> Inl bad
      | Some i \<Rightarrow>
          if length xs < i then Inl bad
          else
            let rem = length xs - i;
                n = (if maxEntries = 0 \<or> rem < unat maxEntries then rem else unat maxEntries);
                next = i + n
            in Inr (take n (drop i xs), if next < length xs then showNat next else []))"

text \<open>The length of the page that \<open>pagedServer\<close> returns at offset \<open>i\<close>.\<close>

definition pageLen :: "'a list \<Rightarrow> nat \<Rightarrow> 32 word \<Rightarrow> nat" where
  "pageLen xs i maxEntries =
     (if maxEntries = 0 \<or> length xs - i < unat maxEntries then length xs - i
      else unat maxEntries)"

text \<open>
  What a list call serves from a token on: the pages in \<open>pages\<close>, one per call and in this
  order, and then the end \<open>fin\<close>: \<open>None\<close> when the last page comes with an empty next
  token, \<open>Some e\<close> when the call after the last page fails with \<open>e\<close>.
\<close>

fun pagesFrom ::
  "(string \<Rightarrow> 32 word \<Rightarrow> 'e + ('a list \<times> string)) \<Rightarrow> string \<Rightarrow> 32 word \<Rightarrow>
   'a list list \<Rightarrow> 'e option \<Rightarrow> bool" where
  "pagesFrom call tok maxEntries [] fin =
     (case fin of None \<Rightarrow> False | Some e \<Rightarrow> call tok maxEntries = Inl e)"
| "pagesFrom call tok maxEntries (p # ps) fin =
     (case call tok maxEntries of
        Inl e \<Rightarrow> False
      | Inr (items, nextToken) \<Rightarrow>
          items = p \<and>
          (if nextToken = [] then ps = [] \<and> fin = None
           else pagesFrom call nextToken maxEntries ps fin))"

section \<open>Properties of the logging interceptor\<close>

subsection \<open>The rendering loop\<close>

lemma joinWith_Cons: "ys \<noteq> [] \<Longrightarrow> joinWith sep (x # ys) = x @ sep @ joinWith sep ys"
  by (cases ys) simp_all

lemma emptyValRX_iff: "emptyValRX s \<longleftrightarrow> s \<in> {'''', ''[]'', ''<nil>'', ''map[]''}"
  by (simp add: emptyValRX_def)

lemma fieldText_case: "fieldText sv = (\<lambda>(name, v). name @ ''='' @ sv v)"
  by (auto simp: fieldText_def fun_eq_iff)

text \<open>
  The loop started in any state: the buffer grows by the shown fields, with a comma
  before the first one exactly when \<open>printComma\<close> was set and a colon before it exactly
  when \<open>printedColon\<close> was not.
\<close>

lemma rprintLoop_eq:
  "rprintLoop sv obj (w, pc, pm) =
     (if shownFields sv obj = [] then (w, pc, pm)
      else (w @ (if pm then '', '' else '''') @ (if pc then '''' else '': '')
              @ joinWith '', '' (map (fieldText sv) (shownFields sv obj)), True, True))"
proof (induction obj arbitrary: w pc pm)
  case Nil
  show ?case by (simp add: shownFields_def)
next
  case (Cons f fs)
  obtain name v where f: "f = (name, v)" by (cases f)
  show ?case
  proof (cases "name = ''UserCredentials'' \<or> emptyValRX (sv v)")
    case True
    then have "shownFields sv (f # fs) = shownFields sv fs"
      by (auto simp: shownFields_def f emptyValRX_iff)
    moreover from True have "rprintLoop sv (f # fs) (w, pc, pm) = rprintLoop sv fs (w, pc, pm)"
      by (auto simp: f)
    ultimately show ?thesis using Cons.IH [of w pc pm] by simp
  next
    case False
    then have sh: "shownFields sv (f # fs) = f # shownFields sv fs"
      by (auto simp: shownFields_def f emptyValRX_iff)
    from False have step: "rprintLoop sv (f # fs) (w, pc, pm) =
        rprintLoop sv fs (((if pm then w @ '', '' else w) @ (if pc then '''' else '': ''))
                           @ name @ ''='' @ sv v, True, True)"
      by (auto simp: f Let_def)
    show ?thesis
    proof (cases "shownFields sv fs = []")
      case True
      then show ?thesis
        unfolding step sh Cons.IH by (simp add: fieldText_def f)
    next
      case False
      then show ?thesis
        unfolding step sh Cons.IH by (simp add: fieldText_def f joinWith_Cons)
    qed
  qed
qed

lemma rprintReqOrRep_eq: "rprintReqOrRep sv w obj = w @ fieldSection sv obj"
  by (simp add: rprintReqOrRep_def rprintLoop_eq fieldSection_def)

lemma shownFields_all_empty:
  "\<forall>f \<in> set obj. sv (snd f) \<in> {'''', ''[]'', ''<nil>'', ''map[]''} \<Longrightarrow> shownFields sv obj = []"
  unfolding shownFields_def filter_empty_conv by (auto simp del: insert_iff)

lemma shownFields_creds:
  "differOnlyInCreds p q \<Longrightarrow>
   map (fieldText sv) (shownFields sv p) = map (fieldText sv) (shownFields sv q)"
  unfolding differOnlyInCreds_def
  by (induction p q rule: list_all2_induct) (auto simp: shownFields_def fieldText_def)

lemma fieldSection_creds: "differOnlyInCreds p q \<Longrightarrow> fieldSection sv p = fieldSection sv q"
  using shownFields_creds [of p q sv]
  by (simp add: fieldSection_def) (metis map_is_Nil_conv)

subsection \<open>The interceptor, case by case\<close>

lemma handle_nil:
  "handle sv et opts reqID method None next (s, \<sigma>) =
     (Returned (fst (next s)), (snd (next s), \<sigma>))"
  by (simp add: handle_def split: prod.splits)

lemma handle_no_reqw:
  "reqw opts = None \<Longrightarrow>
   handle sv et opts reqID method (Some rq) next (s, \<sigma>) = (Panic, (s, \<sigma>))"
  by (simp add: handle_def Fprintln_def Let_def)

lemma handle_reqw_only:
  "reqw opts = Some a \<Longrightarrow> repw opts = None \<Longrightarrow>
   handle sv et opts reqID method (Some rq) next (s, \<sigma>) =
     (Returned (fst (next s)),
      (snd (next s), \<sigma>(a := \<sigma> a @ [requestLine sv method reqID rq @ newline])))"
  by (simp add: handle_def Fprintln_def Let_def rprintReqOrRep_eq requestLine_def lineHead_def
      split: prod.splits option.splits)

lemma handle_both:
  "reqw opts = Some a \<Longrightarrow> repw opts = Some b \<Longrightarrow>
   handle sv et opts reqID method (Some rq) next (s, \<sigma>) =
     (Returned (fst (next s)),
      (snd (next s),
       (\<sigma>(a := \<sigma> a @ [requestLine sv method reqID rq @ newline]))
         (b := (\<sigma>(a := \<sigma> a @ [requestLine sv method reqID rq @ newline])) b
                 @ [responseLine sv et method reqID (fst (fst (next s))) (snd (fst (next s)))
                      @ newline])))"
  by (simp add: handle_def Fprintln_def Let_def rprintReqOrRep_eq requestLine_def responseLine_def
      lineHead_def split: prod.splits option.splits)

text \<open>
  With request logging configured the interceptor only observes: it returns what the
  wrapped call returned and leaves the wrapped call's state as the call left it.
\<close>

lemma handle_observes:
  "reqw opts = Some a \<Longrightarrow>
   fst (handle sv et opts reqID method req next (s, \<sigma>)) = Returned (fst (next s)) \<and>
   fst (snd (handle sv et opts reqID method req next (s, \<sigma>))) = snd (next s)"
proof (cases req)
  case None
  then show ?thesis by (simp add: handle_nil)
next
  case (Some rq)
  assume a: "reqw opts = Some a"
  show ?thesis
  proof (cases "repw opts")
    case None
    with a Some show ?thesis by (simp add: handle_reqw_only)
  next
    case (Some b)
    with a \<open>req = Some rq\<close> show ?thesis by (simp add: handle_both)
  qed
qed



subsection \<open>The claims on the logging interceptor\<close>

text \<open>
  C6. Rendering a payload appends to the buffer the fields as \<open>name=value\<close> pairs separated
  by a comma and a space, after one colon and a space; a field whose rendered text is the
  empty string, \<open>[]\<close>, \<open><nil>\<close> or \<open>map[]\<close> is left out (as is the field
  \<open>UserCredentials\<close>); when no field is left, nothing is appended: the line ends after the
  method name and the correlation id.
\<close>

theorem rprintReqOrRep_renders:
  "rprintReqOrRep sv w obj =
     (let shown = filter (\<lambda>(name, v). name \<noteq> ''UserCredentials'' \<and>
                                         sv v \<notin> {'''', ''[]'', ''<nil>'', ''map[]''}) obj
      in if shown = [] then w
         else w @ '': '' @ joinWith '', '' (map (\<lambda>(name, v). name @ ''='' @ sv v) shown)) \<and>
   ((\<forall>f \<in> set obj. sv (snd f) \<in> {'''', ''[]'', ''<nil>'', ''map[]''}) \<longrightarrow>
      rprintReqOrRep sv w obj = w)"
proof
  show "rprintReqOrRep sv w obj =
     (let shown = filter (\<lambda>(name, v). name \<noteq> ''UserCredentials'' \<and>
                                         sv v \<notin> {'''', ''[]'', ''<nil>'', ''map[]''}) obj
      in if shown = [] then w
         else w @ '': '' @ joinWith '', '' (map (\<lambda>(name, v). name @ ''='' @ sv v) shown))"
    unfolding rprintReqOrRep_eq fieldSection_def fieldText_case Let_def
    by (simp add: shownFields_def)
  show "(\<forall>f \<in> set obj. sv (snd f) \<in> {'''', ''[]'', ''<nil>'', ''map[]''}) \<longrightarrow>
      rprintReqOrRep sv w obj = w"
    by (simp add: rprintReqOrRep_eq fieldSection_def shownFields_all_empty del: insert_iff)
qed

theorem rprintReqOrRep_renders_witness:
  "rprintReqOrRep (\<lambda>x. x) ''/csi.Controller/CreateVolume: REQ 0001''
     [(''Version'', ''minor:1 ''), (''Name'', ''Test Volume''), (''CapacityRange'', ''<nil>''),
      (''VolumeCapabilities'', ''[]''), (''UserCredentials'', ''map[beour:guest]''),
      (''Parameters'', ''map[tag:gold]'')] =
     ''/csi.Controller/CreateVolume: REQ 0001: Version=minor:1 , Name=Test Volume, Parameters=map[tag:gold]'' \<and>
   list_all (\<lambda>f. snd f \<in> {'''', ''[]'', ''<nil>'', ''map[]''})
     [(''Name'', ''''), (''VolumeCapabilities'', ''[]''), (''CapacityRange'', ''<nil>''),
      (''Parameters'', ''map[]'')] \<and>
   rprintReqOrRep (\<lambda>x. x) ''/csi.Controller/CreateVolume: REQ 0001''
     [(''Name'', ''''), (''VolumeCapabilities'', ''[]''), (''CapacityRange'', ''<nil>''),
      (''Parameters'', ''map[]'')] =
     ''/csi.Controller/CreateVolume: REQ 0001''"
  using rprintReqOrRep_renders [of "\<lambda>x. x" "''/csi.Controller/CreateVolume: REQ 0001''"
      "[(''Version'', ''minor:1 ''), (''Name'', ''Test Volume''), (''CapacityRange'', ''<nil>''),
        (''VolumeCapabilities'', ''[]''), (''UserCredentials'', ''map[beour:guest]''),
        (''Parameters'', ''map[tag:gold]'')]"]
    rprintReqOrRep_renders [of "\<lambda>x. x" "''/csi.Controller/CreateVolume: REQ 0001''"
      "[(''Name'', ''''), (''VolumeCapabilities'', ''[]''), (''CapacityRange'', ''<nil>''),
        (''Parameters'', ''map[]'')]"]
  by simp

text \<open>
  C8. The log does not depend on the credentials: two payloads that differ only in the
  field \<open>UserCredentials\<close> are rendered alike; a call logs the same, and ends the same,
  for either as the request; and the sinks end the same for either as the response.
\<close>

theorem creds_not_logged:
  "differOnlyInCreds p q \<Longrightarrow>
   rprintReqOrRep sv w p = rprintReqOrRep sv w q \<and>
   handle sv et opts reqID method (Some p) next st =
     handle sv et opts reqID method (Some q) next st \<and>
   snd (snd (handle sv et opts reqID method req (\<lambda>s. ((Some p, failed), s')) st)) =
     snd (snd (handle sv et opts reqID method req (\<lambda>s. ((Some q, failed), s')) st))"
proof -
  assume d: "differOnlyInCreds p q"
  then have fs: "fieldSection sv p = fieldSection sv q" by (rule fieldSection_creds)
  have 1: "rprintReqOrRep sv w p = rprintReqOrRep sv w q" for w
    by (simp add: rprintReqOrRep_eq fs)
  have 2: "handle sv et opts reqID method (Some p) next st =
      handle sv et opts reqID method (Some q) next st"
    by (simp add: handle_def 1)
  have 3: "snd (snd (handle sv et opts reqID method req (\<lambda>s. ((Some p, failed), s')) st)) =
      snd (snd (handle sv et opts reqID method req (\<lambda>s. ((Some q, failed), s')) st))"
    by (cases st; cases req)
       (simp_all add: handle_def 1 Let_def Fprintln_def split: option.splits)
  from 1 2 3 show ?thesis by simp
qed

theorem creds_not_logged_witness:
  "differOnlyInCreds
     [(''Name'', ''Test Volume''), (''UserCredentials'', ''map[beour:guest]'')]
     [(''Name'', ''Test Volume''), (''UserCredentials'', ''map[root:secret]'')] \<and>
   rprintReqOrRep (\<lambda>x. x) ''/csi.Controller/CreateVolume: REQ 0001''
     [(''Name'', ''Test Volume''), (''UserCredentials'', ''map[beour:guest]'')] =
   rprintReqOrRep (\<lambda>x. x) ''/csi.Controller/CreateVolume: REQ 0001''
     [(''Name'', ''Test Volume''), (''UserCredentials'', ''map[root:secret]'')] \<and>
   rprintReqOrRep (\<lambda>x. x) ''/csi.Controller/CreateVolume: REQ 0001''
     [(''Name'', ''Test Volume''), (''UserCredentials'', ''map[root:secret]'')] =
   ''/csi.Controller/CreateVolume: REQ 0001: Name=Test Volume''"
proof -
  have d: "differOnlyInCreds
     [(''Name'', ''Test Volume''), (''UserCredentials'', ''map[beour:guest]'')]
     [(''Name'', ''Test Volume''), (''UserCredentials'', ''map[root:secret]'')]"
    by (simp add: differOnlyInCreds_def)
  have r: "rprintReqOrRep (\<lambda>x. x) ''/csi.Controller/CreateVolume: REQ 0001''
     [(''Name'', ''Test Volume''), (''UserCredentials'', ''map[root:secret]'')] =
   ''/csi.Controller/CreateVolume: REQ 0001: Name=Test Volume''"
    by (simp add: rprintReqOrRep_def emptyValRX_def)
  from creds_not_logged [OF d, of "\<lambda>x. x" "''/csi.Controller/CreateVolume: REQ 0001''"]
  have "rprintReqOrRep (\<lambda>x. x) ''/csi.Controller/CreateVolume: REQ 0001''
     [(''Name'', ''Test Volume''), (''UserCredentials'', ''map[beour:guest]'')] =
   rprintReqOrRep (\<lambda>x. x) ''/csi.Controller/CreateVolume: REQ 0001''
     [(''Name'', ''Test Volume''), (''UserCredentials'', ''map[root:secret]'')]"
    by (rule conjunct1)
  with d r show ?thesis by simp
qed

text \<open>
  C10. A call with a nil request goes straight to the wrapped handler: the interceptor
  returns the handler's result and writes to no sink, whatever the options are, so also
  when both request and response logging are enabled.
\<close>

theorem handle_nil_request:
  "handle sv et opts reqID method None next (s, \<sigma>) =
     (Returned (fst (next s)), (snd (next s), \<sigma>)) \<and>
   handleServer sv et opts reqID None fullMethod handler (s, \<sigma>) =
     (Returned (fst (handler None s)), (snd (handler None s), \<sigma>))"
  by (simp add: handleServer_def handle_nil)

theorem handle_nil_request_witness:
  "handleServer (\<lambda>x. x) (\<lambda>e. e) \<lparr>reqw = Some 1, repw = Some 2\<rparr> (Some 7) None
     ''/csi.Identity/GetSupportedVersions''
     (\<lambda>req n. ((Some [(''SupportedVersions'', ''[minor:1 ]'')], None), Suc n)) (0::nat, \<lambda>a. []) =
   (Returned (Some [(''SupportedVersions'', ''[minor:1 ]'')], None), (1, \<lambda>a. []))"
  using handle_nil_request [of "\<lambda>x. x" "\<lambda>e. e" "\<lparr>reqw = Some 1, repw = Some 2\<rparr>" "Some 7"
      "''/csi.Identity/GetSupportedVersions''"
      "(\<lambda>req n. ((Some [(''SupportedVersions'', ''[minor:1 ]'')], None), Suc n)) None"
      "0::nat" "\<lambda>a. []" "''/csi.Identity/GetSupportedVersions''"
      "\<lambda>req n. ((Some [(''SupportedVersions'', ''[minor:1 ]'')], None), Suc n)"]
  by simp

text \<open>
  C5, on the code. An interceptor built with response logging alone has a nil request
  writer; on any call with a non-nil request \<open>handle\<close> passes that writer to
  \<open>fmt.Fprintln\<close> and panics, before the wrapped handler runs and with nothing written.
  (The response side tests its writer for nil before it prints; the request side does
  not.)
\<close>

theorem response_logging_alone_panics:
  "newLoggingInterceptor [WithResponseLogging stdout w] =
     \<lparr>reqw = None, repw = Some (case w of None \<Rightarrow> stdout | Some a \<Rightarrow> a)\<rparr> \<and>
   handle sv et (newLoggingInterceptor [WithResponseLogging stdout w]) reqID method (Some rq) next
       (s, \<sigma>) =
     (Panic, (s, \<sigma>))"
  by (simp add: newLoggingInterceptor_def WithResponseLogging_def handle_no_reqw)

text \<open>
  The other direction does hold: with request logging alone the request line is written,
  the handler's result is returned and nothing else is written.
\<close>

lemma request_logging_alone:
  "handle sv et (newLoggingInterceptor [WithRequestLogging stdout (Some a)]) reqID method
       (Some rq) next (s, \<sigma>) =
     (Returned (fst (next s)),
      (snd (next s), \<sigma>(a := \<sigma> a @ [requestLine sv method reqID rq @ newline])))"
  by (simp add: newLoggingInterceptor_def WithRequestLogging_def handle_reqw_only)

text \<open>
  C9, on the code. The same defect at a server call whose handler fails: with response
  logging alone the interceptor panics; the handler is not invoked (its invocation count
  stays 0) and its error is not returned.
\<close>

theorem handleServer_loses_handler_result:
  "handleServer (\<lambda>x. x) (\<lambda>e. e) (newLoggingInterceptor [WithResponseLogging 1 (Some 2)])
     (Some 7) (Some [(''VolumeId'', ''4'')]) ''/csi.Controller/DeleteVolume''
     (\<lambda>req n. ((None, Some ''rpc error: code = NotFound desc = no such volume''), Suc n))
     (0::nat, \<lambda>a. []) =
   (Panic, (0, \<lambda>a. []))"
  by (simp add: handleServer_def newLoggingInterceptor_def WithResponseLogging_def handle_no_reqw)




section \<open>Properties of the version check and the spec validator\<close>

lemma isSupported_iff:
  "isSupported (Some v) supported \<longleftrightarrow>
     (\<exists>s \<in> set supported. major v = major s \<and> minor v = minor s \<and> patch v = patch s)"
  by (induction supported) auto

text \<open>
  C2. The version check passes exactly when the requested version equals an entry of the
  supported versions in its three fields; otherwise it fails with an invalid-argument
  error that names the version text; a nil requested version always fails, and the error
  names \<open>nil\<close>. Against the supported versions 0.1.0, 0.2.0, 1.0.0 and 1.1.0, the versions
  0.0.0 and 1.2.0 fail and every member passes.
\<close>

theorem checkVersion_exact:
  "checkVersion (Some v) supported =
     (if \<exists>s \<in> set supported. major v = major s \<and> minor v = minor s \<and> patch v = patch s
      then None
      else Some (UnsupportedVersion InvalidArgument
                   (''invalid request version: '' @ SprintfVersion v))) \<and>
   checkVersion None supported =
     Some (UnsupportedVersion InvalidArgument ''invalid request version: nil'') \<and>
   checkVersion (Some \<lparr>major = 0, minor = 0, patch = 0\<rparr>) mockSupportedVersions =
     Some (UnsupportedVersion InvalidArgument ''invalid request version: 0.0.0'') \<and>
   checkVersion (Some \<lparr>major = 1, minor = 2, patch = 0\<rparr>) mockSupportedVersions =
     Some (UnsupportedVersion InvalidArgument ''invalid request version: 1.2.0'') \<and>
   (\<forall>v \<in> set mockSupportedVersions. checkVersion (Some v) mockSupportedVersions = None)"
proof (intro conjI)
  show "checkVersion (Some v) supported =
     (if \<exists>s \<in> set supported. major v = major s \<and> minor v = minor s \<and> patch v = patch s
      then None
      else Some (UnsupportedVersion InvalidArgument
                   (''invalid request version: '' @ SprintfVersion v)))"
    unfolding checkVersion_def isSupported_iff by (auto simp: versionText_def)
  show "checkVersion None supported =
     Some (UnsupportedVersion InvalidArgument ''invalid request version: nil'')"
    by (simp add: checkVersion_def versionText_def)
  show "checkVersion (Some \<lparr>major = 0, minor = 0, patch = 0\<rparr>) mockSupportedVersions =
     Some (UnsupportedVersion InvalidArgument ''invalid request version: 0.0.0'')"
    by code_simp
  show "checkVersion (Some \<lparr>major = 1, minor = 2, patch = 0\<rparr>) mockSupportedVersions =
     Some (UnsupportedVersion InvalidArgument ''invalid request version: 1.2.0'')"
    by code_simp
  show "\<forall>v \<in> set mockSupportedVersions. checkVersion (Some v) mockSupportedVersions = None"
    unfolding checkVersion_def isSupported_iff by auto
qed

theorem checkVersion_exact_witness:
  "checkVersion (Some \<lparr>major = 2, minor = 0, patch = 0\<rparr>)
     [\<lparr>major = 0, minor = 2, patch = 0\<rparr>, \<lparr>major = 2, minor = 0, patch = 0\<rparr>] = None \<and>
   checkVersion (Some \<lparr>major = 2, minor = 0, patch = 3\<rparr>)
     [\<lparr>major = 0, minor = 2, patch = 0\<rparr>, \<lparr>major = 2, minor = 0, patch = 0\<rparr>] =
     Some (UnsupportedVersion InvalidArgument ''invalid request version: 2.0.3'') \<and>
   checkVersion (Some \<lparr>major = 0, minor = 2, patch = 0\<rparr>) mockSupportedVersions = None"
proof -
  have t: "SprintfVersion \<lparr>major = 2, minor = 0, patch = 3\<rparr> = ''2.0.3''"
    by (simp add: SprintfVersion_def showNat.simps digitChar_def)
  have m: "\<lparr>major = 0, minor = 2, patch = 0\<rparr> \<in> set mockSupportedVersions"
    by (simp add: mockSupportedVersions_def)
  have a: "checkVersion (Some \<lparr>major = 2, minor = 0, patch = 0\<rparr>)
     [\<lparr>major = 0, minor = 2, patch = 0\<rparr>, \<lparr>major = 2, minor = 0, patch = 0\<rparr>] = None"
    using checkVersion_exact [of "\<lparr>major = 2, minor = 0, patch = 0\<rparr>"
        "[\<lparr>major = 0, minor = 2, patch = 0\<rparr>, \<lparr>major = 2, minor = 0, patch = 0\<rparr>]"]
    by simp
  have b: "checkVersion (Some \<lparr>major = 2, minor = 0, patch = 3\<rparr>)
     [\<lparr>major = 0, minor = 2, patch = 0\<rparr>, \<lparr>major = 2, minor = 0, patch = 0\<rparr>] =
     Some (UnsupportedVersion InvalidArgument ''invalid request version: 2.0.3'')"
    using checkVersion_exact [of "\<lparr>major = 2, minor = 0, patch = 3\<rparr>"
        "[\<lparr>major = 0, minor = 2, patch = 0\<rparr>, \<lparr>major = 2, minor = 0, patch = 0\<rparr>]"]
    by (simp add: t)
  have c: "checkVersion (Some \<lparr>major = 0, minor = 2, patch = 0\<rparr>) mockSupportedVersions = None"
    using checkVersion_exact [of "\<lparr>major = 0, minor = 2, patch = 0\<rparr>" mockSupportedVersions] m by blast
  from a b c show ?thesis by simp
qed

subsection \<open>Required fields\<close>

lemma specValidator_version_fails:
  "validateRequestVersion opts req = Some e \<Longrightarrow>
   specValidator opts remap req handler s = (Inl e, s)"
  by (simp add: specValidator_def)


lemma specValidator_invokes:
  "validateRequestVersion opts req = None \<Longrightarrow> missingFields opts req = [] \<Longrightarrow>
   specValidator opts remap req handler s =
     (remap req (fst (handler req s)), snd (handler req s))"
  by (simp add: specValidator_def split: prod.splits)

text \<open>A request that passes both steps reaches the handler once.\<close>

lemma specValidator_counts_one:
  "validateRequestVersion opts req = None \<Longrightarrow> missingFields opts req = [] \<Longrightarrow>
   fst (snd (specValidator opts remap req (counting handler) (n, s))) = Suc n"
  by (simp add: specValidator_invokes counting_def split: prod.splits)




section \<open>Properties of the pagination engine\<close>

subsection \<open>Offsets as tokens\<close>

lemma digit_cases:
  "d < 10 \<Longrightarrow>
   d = 0 \<or> d = 1 \<or> d = 2 \<or> d = 3 \<or> d = 4 \<or> d = 5 \<or> d = 6 \<or> d = 7 \<or> d = 8 \<or> d = (9::nat)"
  by arith

lemma digitVal_digitChar: "d < 10 \<Longrightarrow> digitVal (digitChar d) = Some d"
  by (drule digit_cases) (auto simp: digitChar_def digitVal_def)

lemma parseDigits_snoc:
  "parseDigits (s @ [c]) acc =
     (case parseDigits s acc of
        None \<Rightarrow> None
      | Some a \<Rightarrow> (case digitVal c of None \<Rightarrow> None | Some d \<Rightarrow> Some (a * 10 + d)))"
  by (induction s arbitrary: acc) (simp_all split: option.splits)

lemma parseDigits_showNat: "parseDigits (showNat n) 0 = Some n"
proof (induction n rule: showNat.induct)
  case (1 n)
  show ?case
  proof (cases "n < 10")
    case True
    then show ?thesis by (simp add: showNat.simps [of n] digitVal_digitChar)
  next
    case False
    with 1 have "parseDigits (showNat (n div 10)) 0 = Some (n div 10)" by simp
    with False show ?thesis
      by (simp add: showNat.simps [of n] parseDigits_snoc digitVal_digitChar)
  qed
qed

lemma showNat_nonempty: "showNat n \<noteq> []"
  by (subst showNat.simps) simp

lemma ParseUint_showNat: "ParseUint (showNat n) = Some n"
  by (simp add: ParseUint_def showNat_nonempty parseDigits_showNat)

subsection \<open>The paged server\<close>

lemma pagedServer_offset:
  assumes "i \<le> length xs" and "tok = showNat i \<or> (tok = [] \<and> i = 0)"
  shows "pagedServer bad xs tok P =
           Inr (take (pageLen xs i P) (drop i xs),
                if i + pageLen xs i P < length xs then showNat (i + pageLen xs i P) else [])"
  using assms
  by (auto simp: pagedServer_def ParseUint_showNat showNat_nonempty pageLen_def Let_def)

lemma pageLen_pos: "i < length xs \<Longrightarrow> 0 < pageLen xs i P"
  by (auto simp: pageLen_def unat_gt_0)

lemma pageLen_le: "i \<le> length xs \<Longrightarrow> i + pageLen xs i P \<le> length xs"
  by (auto simp: pageLen_def)

text \<open>
  Driven from any offset the server has handed out, the engine terminates and emits the
  rest of the dataset: induction on the number of items that remain.
\<close>

lemma pageAll_pagedServer:
  "i \<le> length xs \<Longrightarrow> tok = showNat i \<or> (tok = [] \<and> i = 0) \<Longrightarrow>
   pageAll (pagedServer bad xs) tok P emitted = Some (emitted @ drop i xs, None)"
proof (induction "length xs - i" arbitrary: i tok emitted rule: less_induct)
  case less
  let ?n = "pageLen xs i P"
  have srv: "pagedServer bad xs tok P =
      Inr (take ?n (drop i xs), if i + ?n < length xs then showNat (i + ?n) else [])"
    using less.prems by (rule pagedServer_offset)
  show ?case
  proof (cases "i + ?n < length xs")
    case True
    then have "i < length xs" by simp
    then have pos: "0 < ?n" by (rule pageLen_pos)
    have "pageAll (pagedServer bad xs) (showNat (i + ?n)) P (emitted @ take ?n (drop i xs)) =
            Some ((emitted @ take ?n (drop i xs)) @ drop (i + ?n) xs, None)"
      using True pos by (intro less.hyps) auto
    moreover have "take ?n (drop i xs) @ drop (i + ?n) xs = drop i xs"
      by (metis add.commute append_take_drop_id drop_drop)
    ultimately show ?thesis
      using True by (subst pageAll.simps) (simp add: srv showNat_nonempty)
  next
    case False
    with less.prems have "?n = length xs - i"
      using pageLen_le [of i xs P] by (auto simp: pageLen_def)
    then have "take ?n (drop i xs) = drop i xs" by simp
    with False show ?thesis
      by (subst pageAll.simps) (simp add: srv)
  qed
qed

subsection \<open>Any list call\<close>

lemma pageAll_pagesFrom:
  "pagesFrom call tok P pages fin \<Longrightarrow>
   pageAll call tok P emitted = Some (emitted @ concat pages, fin)"
proof (induction pages arbitrary: tok emitted)
  case Nil
  then show ?case
    by (subst pageAll.simps) (auto split: option.splits)
next
  case (Cons p ps)
  then show ?case
    by (subst pageAll.simps) (auto split: sum.splits prod.splits if_splits)
qed

text \<open>
  C4. Against a backing dataset \<open>xs\<close> of \<open>M\<close> items served in pages of any size \<open>P\<close>, the
  engine, started at the empty token, terminates and emits exactly the items of \<open>xs\<close>, in
  order, with no error. Against any list call that serves the pages \<open>pages\<close> and then
  ends, the engine emits the items of the pages in page order and per-page order; when
  the end is a call error, the values emitted are those of the pages before the failing
  call and nothing more, and the error is the one reported.
\<close>

theorem pageAll_exhausts:
  "pageAll (pagedServer bad xs) [] P [] = Some (xs, None) \<and>
   (pagesFrom call tok P pages fin \<longrightarrow>
      pageAll call tok P emitted = Some (emitted @ concat pages, fin))"
  using pageAll_pagedServer [of 0 xs "[]" bad P "[]"]
    pageAll_pagesFrom [of call tok P pages fin emitted]
  by simp

theorem pageAll_exhausts_witness:
  "pageAll (pagedServer ''bad token'' [''vol1'', ''vol2'', ''vol3'']) [] 2 [] =
     Some ([''vol1'', ''vol2'', ''vol3''], None) \<and>
   pagesFrom
     (\<lambda>tok n. if tok = ''a'' then Inr ([''item0''], ''b'')
               else if tok = ''b'' then Inr ([''item1''], ''c'')
               else if tok = ''c'' then Inr ([''item2''], [])
               else Inl ''bad token'')
     ''a'' 0 [[''item0''], [''item1''], [''item2'']] None \<and>
   pageAll
     (\<lambda>tok n. if tok = ''a'' then Inr ([''item0''], ''b'')
               else if tok = ''b'' then Inr ([''item1''], ''c'')
               else if tok = ''c'' then Inr ([''item2''], [])
               else Inl ''bad token'')
     ''a'' 0 [] = Some ([''item0'', ''item1'', ''item2''], None) \<and>
   pagesFrom
     (\<lambda>tok n. if tok = ''a'' then Inr ([''item0''], ''b'') else Inl ''unavailable'')
     ''a'' 0 [[''item0'']] (Some ''unavailable'') \<and>
   pageAll
     (\<lambda>tok n. if tok = ''a'' then Inr ([''item0''], ''b'') else Inl ''unavailable'')
     ''a'' 0 [] = Some ([''item0''], Some ''unavailable'')"
proof -
  let ?abc = "\<lambda>(tok::string) (n::32 word).
               if tok = ''a'' then Inr ([''item0''], ''b'')
               else if tok = ''b'' then Inr ([''item1''], ''c'')
               else if tok = ''c'' then Inr ([''item2''], [])
               else Inl ''bad token''"
  let ?err = "\<lambda>(tok::string) (n::32 word).
               if tok = ''a'' then Inr ([''item0''], ''b'') else Inl ''unavailable''"
  have p1: "pagesFrom ?abc ''a'' 0 [[''item0''], [''item1''], [''item2'']] None"
    by simp
  have p2: "pagesFrom ?err ''a'' 0 [[''item0'']] (Some ''unavailable'')"
    by simp
  have a: "pageAll (pagedServer ''bad token'' [''vol1'', ''vol2'', ''vol3'']) [] 2 [] =
      Some ([''vol1'', ''vol2'', ''vol3''], None)"
    using pageAll_exhausts [of "''bad token''" "[''vol1'', ''vol2'', ''vol3'']" 2]
    by (rule conjunct1)
  have b: "pageAll ?abc ''a'' 0 [] =
      Some ([] @ concat [[''item0''], [''item1''], [''item2'']], None)"
    by (rule mp [OF conjunct2 [OF pageAll_exhausts [of "''bad token''" "[]" 0 ?abc "''a''"
        "[[''item0''], [''item1''], [''item2'']]" None "[]"]] p1])
  have c: "pageAll ?err ''a'' 0 [] = Some ([] @ concat [[''item0'']], Some ''unavailable'')"
    by (rule mp [OF conjunct2 [OF pageAll_exhausts [of "''unavailable''" "[]" 0 ?err "''a''"
        "[[''item0'']]" "Some ''unavailable''" "[]"]] p2])
  from a p1 b p2 c show ?thesis by simp
qed

end
